theory Spec2Isabelle
  imports Main
begin

section \<open>Python strings\<close>

text \<open>
  A Python \<open>str\<close> is a sequence of Unicode code points, so \<open>len\<close> counts code points
  and \<open>in\<close> is a search for a contiguous run of them. The literals of the source are
  ASCII except for the currency signs, which are written by number:
  the euro sign is 8364, the pound sign 163, the dollar sign 36.
\<close>

type_synonym pystr = "nat list"

definition S :: "string \<Rightarrow> pystr" where
  "S s = map of_char s"

text \<open>
  The Unicode character database belongs to the Python runtime, not to the repository.
  What the source needs of it beyond ASCII is taken as a parameter: which code points
  above 127 the regular expression class \<open>\d\<close> accepts, and what \<open>str.lower\<close> writes
  for the character above 127 at a position of a string (the position is given because
  the lower case of a capital sigma depends on its neighbours). ASCII is written out.
\<close>

record unicode_db =
  is_decimal :: "nat \<Rightarrow> bool"
  lower_of :: "pystr \<Rightarrow> nat \<Rightarrow> pystr"

definition is_digit :: "unicode_db \<Rightarrow> nat \<Rightarrow> bool" where
  "is_digit db c = (if c < 128 then 48 \<le> c \<and> c \<le> 57 else is_decimal db c)"

definition lower_char :: "unicode_db \<Rightarrow> pystr \<Rightarrow> nat \<Rightarrow> pystr" where
  "lower_char db s i =
     (let c = s ! i in
      if c < 128 then (if 65 \<le> c \<and> c \<le> 90 then [c + 32] else [c])
      else lower_of db s i)"

definition py_lower :: "unicode_db \<Rightarrow> pystr \<Rightarrow> pystr" where
  "py_lower db s = concat (map (lower_char db s) [0..<length s])"

text \<open>The characters \<open>str.strip()\<close> removes: those for which \<open>str.isspace\<close> holds.\<close>

definition is_space :: "nat \<Rightarrow> bool" where
  "is_space c =
     ((9 \<le> c \<and> c \<le> 13) \<or> (28 \<le> c \<and> c \<le> 32) \<or> c = 133 \<or> c = 160 \<or> c = 5760 \<or>
      (8192 \<le> c \<and> c \<le> 8202) \<or> c = 8232 \<or> c = 8233 \<or> c = 8239 \<or> c = 8287 \<or>
      c = 12288)"

definition strip :: "pystr \<Rightarrow> pystr" where
  "strip s = rev (dropWhile is_space (rev (dropWhile is_space s)))"

text \<open>\<open>sub in s\<close>.\<close>

fun starts_with :: "pystr \<Rightarrow> pystr \<Rightarrow> bool" where
  "starts_with [] s = True"
| "starts_with (p # ps) [] = False"
| "starts_with (p # ps) (c # cs) = (p = c \<and> starts_with ps cs)"

fun contains :: "pystr \<Rightarrow> pystr \<Rightarrow> bool" where
  "contains sub [] = (sub = [])"
| "contains sub (c # cs) = (starts_with sub (c # cs) \<or> contains sub cs)"

text \<open>\<open>s.split('\n')\<close>: the pieces between line feeds; never the empty list.\<close>

fun split_nl :: "pystr \<Rightarrow> pystr list" where
  "split_nl [] = [[]]"
| "split_nl (c # cs) =
     (if c = 10 then [] # split_nl cs
      else (case split_nl cs of [] \<Rightarrow> [[c]] | l # ls \<Rightarrow> (c # l) # ls))"

text \<open>\<open>str(n)\<close> of an integer, as an f-string writes it.\<close>

fun digits_of :: "nat \<Rightarrow> pystr" where
  "digits_of n = (if n < 10 then [48 + n] else digits_of (n div 10) @ [48 + n mod 10])"

declare digits_of.simps [simp del]

definition str_int :: "int \<Rightarrow> pystr" where
  "str_int i = (if i < 0 then 45 # digits_of (nat (- i)) else digits_of (nat i))"

text \<open>
  \<open>re.search(r'\d+\.\d{2}', line)\<close>. \<open>odds_tail\<close> is the pattern after its first
  digit: further digits, then a dot and two digits. \<open>odds_match\<close> is a match that
  starts at the head of the string, and the search tries every start.
\<close>

fun odds_tail :: "unicode_db \<Rightarrow> pystr \<Rightarrow> bool" where
  "odds_tail db (c # d1 # d2 # r) =
     ((c = 46 \<and> is_digit db d1 \<and> is_digit db d2) \<or>
      (is_digit db c \<and> odds_tail db (d1 # d2 # r)))"
| "odds_tail db r = False"

fun odds_match :: "unicode_db \<Rightarrow> pystr \<Rightarrow> bool" where
  "odds_match db [] = False"
| "odds_match db (c # r) = (is_digit db c \<and> odds_tail db r)"

fun re_search_odds :: "unicode_db \<Rightarrow> pystr \<Rightarrow> bool" where
  "re_search_odds db [] = False"
| "re_search_odds db (c # r) = (odds_match db (c # r) \<or> re_search_odds db r)"

section \<open>Bet records\<close>

record BetInfo =
  betslip_id :: pystr
  teams :: pystr
  market :: pystr
  stake :: pystr
  odds :: pystr
  possible_winnings :: pystr
  bet_time :: pystr
  status :: pystr

section \<open>The field matchers of \<open>EnhancedBetMonitor\<close>\<close>

text \<open>Each matcher returns the first line that qualifies, as the \<open>for\<close> loop does.\<close>

definition first_line :: "(pystr \<Rightarrow> bool) \<Rightarrow> pystr list \<Rightarrow> pystr option" where
  "first_line p lines = find p lines"

definition teams_line :: "pystr \<Rightarrow> bool" where
  "teams_line line =
     (contains (S '' vs '') line \<or> contains (S '' v '') line \<or> contains (S '' - '') line)"

definition extract_teams :: "pystr list \<Rightarrow> pystr" where
  "extract_teams lines =
     (case first_line teams_line lines of
        Some line \<Rightarrow> line
      | None \<Rightarrow> (case lines of l # _ \<Rightarrow> l | [] \<Rightarrow> S ''Unknown Teams''))"

definition market_keywords :: "pystr list" where
  "market_keywords =
     [S ''1X2'', S ''Over'', S ''Under'', S ''BTTS'', S ''Handicap'', S ''Draw'']"

definition market_line :: "pystr \<Rightarrow> bool" where
  "market_line line = list_ex (\<lambda>keyword. contains keyword line) market_keywords"

definition extract_market :: "pystr list \<Rightarrow> pystr" where
  "extract_market lines =
     (case first_line market_line lines of
        Some line \<Rightarrow> line
      | None \<Rightarrow> S ''Unknown Market'')"

definition stake_line :: "pystr \<Rightarrow> bool" where
  "stake_line line = (contains [8364] line \<or> contains [36] line \<or> contains [163] line)"

definition extract_stake :: "pystr list \<Rightarrow> pystr" where
  "extract_stake lines =
     (case first_line stake_line lines of
        Some line \<Rightarrow> line
      | None \<Rightarrow> S ''Unknown Stake'')"

definition extract_odds :: "unicode_db \<Rightarrow> pystr list \<Rightarrow> pystr" where
  "extract_odds db lines =
     (case first_line (re_search_odds db) lines of
        Some line \<Rightarrow> line
      | None \<Rightarrow> S ''Unknown Odds'')"

definition winnings_keywords :: "pystr list" where
  "winnings_keywords = [S ''win'', S ''return'', S ''payout'']"

definition winnings_line :: "unicode_db \<Rightarrow> pystr \<Rightarrow> bool" where
  "winnings_line db line =
     list_ex (\<lambda>keyword. contains keyword (py_lower db line)) winnings_keywords"

definition extract_winnings :: "unicode_db \<Rightarrow> pystr list \<Rightarrow> pystr" where
  "extract_winnings db lines =
     (case first_line (winnings_line db) lines of
        Some line \<Rightarrow> line
      | None \<Rightarrow> S ''Unknown Winnings'')"

section \<open>Strategy A: one record per container element\<close>

text \<open>
  What the extractor reads of a page element. Its rendered text is \<open>None\<close> when
  reading it raises. Reading its \<open>id\<close> attribute raises too, or gives the attribute,
  which is \<open>None\<close> when the element has none. \<open>_extract_bet_info\<close> catches either
  exception and returns \<open>None\<close>. \<open>now\<close> is \<open>int(time.time())\<close> and \<open>stamp\<close> the
  formatted current time that \<open>BetInfo\<close> takes as its default \<open>bet_time\<close>.
\<close>

datatype attr_read = AttrRaises | Attr "pystr option"

record element =
  el_text :: "pystr option"
  el_id :: attr_read

definition synth_id :: "int \<Rightarrow> nat \<Rightarrow> pystr" where
  "synth_id now index = S ''bet_'' @ str_int now @ S ''_'' @ str_int (int index)"

definition extract_bet_info ::
  "unicode_db \<Rightarrow> int \<Rightarrow> pystr \<Rightarrow> element \<Rightarrow> nat \<Rightarrow> BetInfo option" where
  "extract_bet_info db now stamp el index =
     (case el_text el of
        None \<Rightarrow> None
      | Some raw \<Rightarrow>
          (let text = strip raw in
           if text = [] \<or> length text < 10 then None
           else
             (case el_id el of
                AttrRaises \<Rightarrow> None
              | Attr got \<Rightarrow>
                  (let bet_id = (case got of
                                   None \<Rightarrow> synth_id now index
                                 | Some i \<Rightarrow> if i = [] then synth_id now index else i);
                       lines = split_nl text
                   in Some \<lparr>betslip_id = bet_id,
                            teams = extract_teams lines,
                            market = extract_market lines,
                            stake = extract_stake lines,
                            odds = extract_odds db lines,
                            possible_winnings = extract_winnings db lines,
                            bet_time = stamp,
                            status = S ''Active''\<rparr>))))"

section \<open>Strategy B: one record per table row\<close>

text \<open>
  A table row is read as the texts of its \<open>td\<close> cells; \<open>None\<close> stands for a row
  whose cells cannot be read (the driver raises and \<open>_extract_bet_from_row\<close> catches).
\<close>

type_synonym row = "pystr list option"

definition row_id :: "int \<Rightarrow> nat \<Rightarrow> pystr" where
  "row_id now index = S ''row_bet_'' @ str_int now @ S ''_'' @ str_int (int index)"

definition extract_bet_from_row :: "int \<Rightarrow> pystr \<Rightarrow> row \<Rightarrow> nat \<Rightarrow> BetInfo option" where
  "extract_bet_from_row now stamp r index =
     (case r of
        None \<Rightarrow> None
      | Some cells \<Rightarrow>
          if length cells < 3 then None
          else
            (let cell_texts = map strip cells
             in Some \<lparr>betslip_id = row_id now index,
                      teams = (if length cell_texts > 0 then cell_texts ! 0 else S ''Unknown''),
                      market = (if length cell_texts > 1 then cell_texts ! 1 else S ''Unknown''),
                      stake = (if length cell_texts > 2 then cell_texts ! 2 else S ''Unknown''),
                      odds = (if length cell_texts > 3 then cell_texts ! 3 else S ''Unknown''),
                      possible_winnings =
                        (if length cell_texts > 4 then cell_texts ! 4 else S ''Unknown''),
                      bet_time = stamp,
                      status = S ''Active''\<rparr>))"

section \<open>\<open>scan_for_bets\<close>\<close>

text \<open>
  The page as the scan sees it: \<open>containers\<close> are the distinct elements that the six
  container selectors find, in the order in which \<open>list(set(...))\<close> yields them, and
  \<open>table_rows\<close> what the row selector finds. The clock gives, for each strategy and
  each index of the enumeration, the time read while that item is processed.
  A scan in which the driver raises outside the per-item handlers returns the empty
  list; that is the snapshot \<open>None\<close>.
\<close>

record page =
  containers :: "element list"
  table_rows :: "row list"

datatype strategy = Containers | Rows

record clock =
  now_at :: "strategy \<Rightarrow> nat \<Rightarrow> int"
  stamp_at :: "strategy \<Rightarrow> nat \<Rightarrow> pystr"

definition scan_containers :: "unicode_db \<Rightarrow> clock \<Rightarrow> element list \<Rightarrow> BetInfo list" where
  "scan_containers db ck els =
     List.map_filter
       (\<lambda>(i, e). extract_bet_info db (now_at ck Containers i) (stamp_at ck Containers i) e i)
       (enumerate 0 els)"

definition scan_rows :: "clock \<Rightarrow> row list \<Rightarrow> BetInfo list" where
  "scan_rows ck rs =
     List.map_filter
       (\<lambda>(i, r). extract_bet_from_row (now_at ck Rows i) (stamp_at ck Rows i) r i)
       (enumerate 0 rs)"

definition scan_for_bets :: "unicode_db \<Rightarrow> clock \<Rightarrow> page option \<Rightarrow> BetInfo list" where
  "scan_for_bets db ck snapshot =
     (case snapshot of
        None \<Rightarrow> []
      | Some pg \<Rightarrow>
          (let bets = scan_containers db ck (containers pg)
           in if bets = [] then scan_rows ck (table_rows pg) else bets))"

section \<open>\<open>check_for_new_bets\<close>: the seen-set and the history\<close>

record monitor =
  known_bets :: "pystr set"
  bet_history :: "BetInfo list"

definition new_monitor :: monitor where
  "new_monitor = \<lparr>known_bets = {}, bet_history = []\<rparr>"

text \<open>
  The loop over \<open>current_bets\<close>: the pair is \<open>new_bets\<close> and the monitor after the
  loop. \<open>check_for_new_bets\<close> runs it on what the scan returned.
\<close>

fun accept_bets :: "monitor \<Rightarrow> BetInfo list \<Rightarrow> BetInfo list \<times> monitor" where
  "accept_bets m [] = ([], m)"
| "accept_bets m (bet # rest) =
     (if betslip_id bet \<notin> known_bets m then
        (let (new_bets, m') =
               accept_bets
                 (m\<lparr>known_bets := insert (betslip_id bet) (known_bets m),
                    bet_history := bet_history m @ [bet]\<rparr>) rest
         in (bet # new_bets, m'))
      else accept_bets m rest)"

definition check_for_new_bets :: "monitor \<Rightarrow> BetInfo list \<Rightarrow> BetInfo list \<times> monitor" where
  "check_for_new_bets m current_bets = accept_bets m current_bets"

text \<open>A run of the monitor: one call of \<open>check_for_new_bets\<close> per scan, in order.\<close>

fun run_checks :: "monitor \<Rightarrow> BetInfo list list \<Rightarrow> monitor" where
  "run_checks m [] = m"
| "run_checks m (current_bets # scans) =
     run_checks (snd (check_for_new_bets m current_bets)) scans"

section \<open>\<open>save_bet_history\<close>\<close>


record history_data =
  last_updated :: pystr
  total_bets :: nat
  bets :: "(pystr \<times> pystr) list list"










section \<open>\<open>ProxyVerifier.verify_proxy\<close>\<close>

text \<open>
  What \<open>requests.get\<close> does for a service: it raises, or gives a response. Of an
  exception only its class matters, since the handler catches \<open>RequestException\<close>
  alone. Of a response the code reads the status code, the text and, for a service
  whose address contains \<open>json\<close>, the parsed body: parsing may raise; a parsed
  object gives the value under the key \<open>ip\<close> when it has one; any other JSON value
  has no \<open>get\<close> and the call raises \<open>AttributeError\<close>.
\<close>

datatype exn = RequestException | AttributeError | OtherError

datatype ip_value = IpStr pystr | IpNotStr

datatype json_result = JsonRaises exn | JsonObject "ip_value option" | JsonNotObject

record response =
  status_code :: int
  resp_text :: pystr
  resp_json :: json_result

datatype get_result = GetRaises exn | Response response

record ProxyConfig =
  host :: pystr
  port :: int
  username :: pystr
  password :: pystr
  expected_ip :: pystr
  timeout :: int
  verify_ssl :: bool

definition ip_services :: "pystr list" where
  "ip_services =
     [S ''https://api.ipify.org?format=json'',
      S ''https://ifconfig.me/ip'',
      S ''https://api.myip.com'']"

definition actual_ip :: "pystr \<Rightarrow> response \<Rightarrow> exn + ip_value" where
  "actual_ip service r =
     (if contains (S ''json'') service then
        (case resp_json r of
           JsonRaises e \<Rightarrow> Inl e
         | JsonNotObject \<Rightarrow> Inl AttributeError
         | JsonObject None \<Rightarrow> Inr (IpStr [])
         | JsonObject (Some v) \<Rightarrow> Inr v)
      else Inr (IpStr (strip (resp_text r))))"

text \<open>The loop over the services; \<open>Inl\<close> is an exception that leaves \<open>verify_proxy\<close>.\<close>

fun try_services :: "(pystr \<Rightarrow> get_result) \<Rightarrow> pystr \<Rightarrow> pystr list \<Rightarrow> exn + bool" where
  "try_services net expected [] = Inr False"
| "try_services net expected (service # rest) =
     (case net service of
        GetRaises e \<Rightarrow>
          (if e = RequestException then try_services net expected rest else Inl e)
      | Response r \<Rightarrow>
          (if status_code r = 200 then
             (case actual_ip service r of
                Inl e \<Rightarrow>
                  (if e = RequestException then try_services net expected rest else Inl e)
              | Inr ip \<Rightarrow>
                  (if ip = IpStr expected then Inr True
                   else try_services net expected rest))
           else try_services net expected rest))"

definition verify_proxy :: "(pystr \<Rightarrow> get_result) \<Rightarrow> ProxyConfig \<Rightarrow> exn + bool" where
  "verify_proxy net proxy_config = try_services net (expected_ip proxy_config) ip_services"

section \<open>\<open>BwinBetMonitor\<close>: the application object and its effects\<close>

text \<open>
  The calls to the collaborators (browser, site, messaging channel, disk, clock) are
  recorded, in order, in a trace. A status message is named by its constructor; the
  hourly message carries the two numbers it prints.
\<close>

datatype status_msg =
    StartupFailedProxy
  | StartingUp
  | StartupFailedLogin
  | StartupFailedHistory
  | StartupFailedError
  | Initialized pystr
  | MonitorActive int nat
  | TooManyErrors
  | StoppedByUser
  | MonitorCrashed

datatype action =
    LaunchBrowser
  | Login
  | Navigate
  | Refresh
  | NotifyBet BetInfo
  | SaveHistory
  | BrowserCleanup
  | Status status_msg
  | Sleep int

record app =
  browser_manager :: bool
  driver :: bool
  bet_monitor :: "monitor option"
  telegram_notifier :: bool
  monitoring_active :: bool
  trace :: "action list"

definition new_app :: app where
  "new_app =
     \<lparr>browser_manager = False, driver = False, bet_monitor = None,
      telegram_notifier = False, monitoring_active = False, trace = []\<rparr>"

definition emit :: "action list \<Rightarrow> app \<Rightarrow> app" where
  "emit xs a = a\<lparr>trace := trace a @ xs\<rparr>"

definition statuses :: "action list \<Rightarrow> status_msg list" where
  "statuses tr = concat (map (\<lambda>x. case x of Status m \<Rightarrow> [m] | _ \<Rightarrow> []) tr)"

definition cleanup :: "app \<Rightarrow> app" where
  "cleanup a =
     (let a1 = (if bet_monitor a \<noteq> None then emit [SaveHistory] a else a)
      in if browser_manager a1 then emit [BrowserCleanup] a1 else a1)"

section \<open>\<open>BwinBetMonitor.initialize\<close>\<close>

text \<open>
  What the collaborators do during one initialization: the answers of the IP services,
  whether constructing the notifier raises, whether \<open>launch_chrome\<close> raises, and the
  results of \<open>login\<close> and \<open>navigate_to_bet_history\<close> (both catch their own exceptions
  and return a boolean).
\<close>

record init_env =
  service_replies :: "pystr \<Rightarrow> get_result"
  notifier_raises :: bool
  launch_raises :: bool
  login_ok :: bool
  history_ok :: bool

text \<open>The \<open>except Exception\<close> handler of \<open>initialize\<close>.\<close>

definition init_failed :: "app \<Rightarrow> bool \<times> app" where
  "init_failed a =
     (False, cleanup (if telegram_notifier a then emit [Status StartupFailedError] a else a))"

definition initialize :: "ProxyConfig \<Rightarrow> init_env \<Rightarrow> app \<Rightarrow> bool \<times> app" where
  "initialize proxy_config env a =
     (case verify_proxy (service_replies env) proxy_config of
        Inl e \<Rightarrow> init_failed a
      | Inr False \<Rightarrow>
          (if notifier_raises env then init_failed a
           else (False, emit [Status StartupFailedProxy] (a\<lparr>telegram_notifier := True\<rparr>)))
      | Inr True \<Rightarrow>
          (let a1 = emit [LaunchBrowser] (a\<lparr>browser_manager := True\<rparr>) in
           if launch_raises env then init_failed a1
           else if notifier_raises env then init_failed (a1\<lparr>driver := True\<rparr>)
           else
             (let a2 = emit [Status StartingUp, Login]
                         (a1\<lparr>driver := True, telegram_notifier := True\<rparr>) in
              if \<not> login_ok env then
                (False, cleanup (emit [Status StartupFailedLogin] a2))
              else
                (let a3 = emit [Navigate] (a2\<lparr>bet_monitor := Some new_monitor\<rparr>) in
                 if \<not> history_ok env then
                   (False, cleanup (emit [Status StartupFailedHistory] a3))
                 else
                   (True,
                    (emit [Status (Initialized (expected_ip proxy_config))] a3)
                      \<lparr>monitoring_active := True\<rparr>)))))"

section \<open>\<open>BwinBetMonitor.run_monitoring_loop\<close>\<close>

text \<open>
  What happens around one iteration: whether \<open>driver.refresh()\<close> raises (asked only
  on every tenth check), what \<open>check_for_new_bets\<close> finds on the page, and whether the
  user interrupts the sleep that ends the iteration. The scan is \<open>None\<close> when the call
  of \<open>check_for_new_bets\<close> raises; with the repository's own \<open>scan_for_bets\<close>, which
  catches every exception, that does not happen, so \<open>None\<close> stands for a bet monitor
  whose scan has been replaced.
\<close>

datatype iter_event = Iter (refresh_raises: bool) (scanned: "BetInfo list option") (interrupt: bool)

text \<open>
  \<open>check_count % (3600 // check_interval) == 0\<close>; \<open>None\<close> is \<open>ZeroDivisionError\<close>,
  raised by the division when the interval is zero and by the remainder when the
  quotient is zero.
\<close>

definition hourly_due :: "int \<Rightarrow> int \<Rightarrow> bool option" where
  "hourly_due check_count check_interval =
     (if check_interval = 0 then None
      else if 3600 div check_interval = 0 then None
      else Some (check_count mod (3600 div check_interval) = 0))"

text \<open>
  The body of the inner \<open>try\<close>. The result says whether it raised, and gives the
  value of \<open>consecutive_errors\<close> and the application object at that point.
\<close>

definition try_body :: "int \<Rightarrow> iter_event \<Rightarrow> int \<Rightarrow> int \<Rightarrow> app \<Rightarrow> bool \<times> int \<times> app" where
  "try_body check_interval ev check_count consecutive_errors a =
     (if check_count mod 10 = 0 \<and> refresh_raises ev then (True, consecutive_errors, a)
      else
        (let a1 = (if check_count mod 10 = 0 then emit [Refresh, Sleep 5] a else a) in
         case (bet_monitor a1, scanned ev) of
           (Some m, Some current_bets) \<Rightarrow>
             (let (new_bets, m') = check_for_new_bets m current_bets;
                  a2 = a1\<lparr>bet_monitor := Some m'\<rparr>;
                  a3 = (if new_bets \<noteq> [] then emit (map NotifyBet new_bets @ [SaveHistory]) a2
                        else a2)
              in case hourly_due check_count check_interval of
                   None \<Rightarrow> (True, 0, a3)
                 | Some due \<Rightarrow>
                     (False, 0,
                      if due then
                        emit [Status (MonitorActive check_count (card (known_bets m')))] a3
                      else a3))
         | _ \<Rightarrow> (True, consecutive_errors, a1)))"

text \<open>
  \<open>time.sleep\<close> raises \<open>ValueError\<close> for a negative length, and \<open>OverflowError\<close> or
  \<open>OSError\<close> for a length too large for the platform's clock (from about 9.2e9
  seconds). Which lengths are too large is the runtime's, and a parameter here.
\<close>

definition sleep_raises :: "(int \<Rightarrow> bool) \<Rightarrow> int \<Rightarrow> bool" where
  "sleep_raises too_long secs = (secs < 0 \<or> too_long secs)"

text \<open>
  The \<open>while\<close> loop, one event per iteration. It ends by \<open>break\<close>, by the user's
  interrupt, or by an exception outside the inner \<open>try\<close>, which only the sleep at the
  end of an iteration can raise; \<open>OutOfEvents\<close> says that the loop is still running
  when the events given are used up. The result carries \<open>consecutive_errors\<close>,
  \<open>check_count\<close> and the application object.
\<close>

datatype loop_end = OutOfEvents | Break | KeyboardInterrupt | SleepError

fun monitoring_loop ::
  "(int \<Rightarrow> bool) \<Rightarrow> int \<Rightarrow> int \<Rightarrow> iter_event list \<Rightarrow> int \<Rightarrow> int \<Rightarrow> app \<Rightarrow>
   loop_end \<times> int \<times> int \<times> app" where
  "monitoring_loop too_long check_interval max_errors [] consecutive_errors check_count a =
     (OutOfEvents, consecutive_errors, check_count, a)"
| "monitoring_loop too_long check_interval max_errors (ev # evs) consecutive_errors check_count a =
     (let cc = check_count + 1;
          (raised, ce1, a1) = try_body check_interval ev cc consecutive_errors a;
          ce2 = (if raised then ce1 + 1 else ce1)
      in if raised \<and> ce2 \<ge> max_errors then (Break, ce2, cc, emit [Status TooManyErrors] a1)
         else
           (let a2 = (if raised then emit [Navigate] a1 else a1) in
            if sleep_raises too_long check_interval then (SleepError, ce2, cc, a2)
            else if interrupt ev then (KeyboardInterrupt, ce2, cc, emit [Sleep check_interval] a2)
            else monitoring_loop too_long check_interval max_errors evs ce2 cc
                   (emit [Sleep check_interval] a2)))"

declare monitoring_loop.simps [simp del]

text \<open>
  The whole method: the guard, the loop from zero counters, the two outer handlers and
  the \<open>finally\<close> clause. The boolean says whether the method has returned.
\<close>

definition finally_clause :: "app \<Rightarrow> app" where
  "finally_clause a = cleanup (a\<lparr>monitoring_active := False\<rparr>)"

definition run_monitoring_loop ::
  "(int \<Rightarrow> bool) \<Rightarrow> int \<Rightarrow> int \<Rightarrow> iter_event list \<Rightarrow> app \<Rightarrow> bool \<times> app" where
  "run_monitoring_loop too_long check_interval max_errors evs a =
     (if \<not> monitoring_active a then (True, a)
      else
        (case monitoring_loop too_long check_interval max_errors evs 0 0 a of
           (OutOfEvents, _, _, a') \<Rightarrow> (False, a')
         | (Break, _, _, a') \<Rightarrow> (True, finally_clause a')
         | (KeyboardInterrupt, _, _, a') \<Rightarrow>
             (True, finally_clause (emit [Status StoppedByUser] a'))
         | (SleepError, _, _, a') \<Rightarrow>
             (True, finally_clause (emit [Status MonitorCrashed] a'))))"

section \<open>Notions used in the statements\<close>


text \<open>
  The seen-set is the set of the identifiers of the history, and no identifier occurs
  twice in the history.
\<close>

definition lockstep :: "monitor \<Rightarrow> bool" where
  "lockstep m =
     (known_bets m = betslip_id ` set (bet_history m) \<and>
      distinct (map betslip_id (bet_history m)))"

text \<open>The second monitor keeps every identifier and every history record of the first.\<close>

definition grows :: "monitor \<Rightarrow> monitor \<Rightarrow> bool" where
  "grows m m' =
     (known_bets m \<subseteq> known_bets m' \<and>
      take (length (bet_history m)) (bet_history m') = bet_history m)"

section \<open>Concrete inputs\<close>

text \<open>
  A character database with nothing beyond ASCII: no decimal digit above 127, and
  every character above 127 its own lower case.
\<close>

definition ascii_db :: unicode_db where
  "ascii_db = \<lparr>is_decimal = (\<lambda>c. False), lower_of = (\<lambda>s i. [s ! i])\<rparr>"

text \<open>A record with a given identifier and participants label, all else unknown.\<close>

definition sample_bet :: "pystr \<Rightarrow> pystr \<Rightarrow> BetInfo" where
  "sample_bet i t =
     \<lparr>betslip_id = i, teams = t, market = S ''Unknown Market'', stake = S ''Unknown Stake'',
      odds = S ''Unknown Odds'', possible_winnings = S ''Unknown Winnings'',
      bet_time = S ''2024-01-01 12:00:00'', status = S ''Active''\<rparr>"

text \<open>The application object as a successful \<open>initialize\<close> leaves it, its trace emptied.\<close>

definition ready_app :: app where
  "ready_app =
     \<lparr>browser_manager = True, driver = True, bet_monitor = Some new_monitor,
      telegram_notifier = True, monitoring_active = True, trace = []\<rparr>"

text \<open>The text block of the scenario, and its lines.\<close>

definition scenario_text :: pystr where
  "scenario_text =
     S ''Arsenal vs Chelsea'' @ [10] @ S ''1X2 Home'' @ [10] @ [8364] @ S ''25.00 stake'' @ [10] @
     S ''2.40'' @ [10] @ S ''Possible win '' @ [8364] @ S ''60.00''"

definition scenario_lines :: "pystr list" where
  "scenario_lines =
     [S ''Arsenal vs Chelsea'', S ''1X2 Home'', [8364] @ S ''25.00 stake'', S ''2.40'',
      S ''Possible win '' @ [8364] @ S ''60.00'']"


text \<open>A proxy configuration that expects the address 203.0.113.9.\<close>

definition sample_proxy :: ProxyConfig where
  "sample_proxy =
     \<lparr>host = S ''proxy.example'', port = 8080, username = S ''user'', password = S ''secret'',
      expected_ip = S ''203.0.113.9'', timeout = 10, verify_ssl = False\<rparr>"

text \<open>
  The first service answers 200 with a body that is JSON but not an object (the
  two characters of an empty array); every other service answers 200 with the expected
  address as its text.
\<close>

definition array_body_net :: "pystr \<Rightarrow> get_result" where
  "array_body_net service =
     (if service = S ''https://api.ipify.org?format=json'' then
        Response \<lparr>status_code = 200, resp_text = S ''[]'', resp_json = JsonNotObject\<rparr>
      else
        Response \<lparr>status_code = 200, resp_text = S ''203.0.113.9'',
                  resp_json = JsonRaises RequestException\<rparr>)"

text \<open>Every service answers 200 with another address than the expected one.\<close>

definition mismatch_net :: "pystr \<Rightarrow> get_result" where
  "mismatch_net service =
     Response \<lparr>status_code = 200, resp_text = S ''198.51.100.7'',
               resp_json = JsonObject (Some (IpStr (S ''198.51.100.7'')))\<rparr>"

text \<open>
  A service accepts when it answers 200 and the address read from the answer is the
  expected one. A service aborts the check when an exception other than a
  \<open>RequestException\<close> is raised while it is asked or its answer is read.
\<close>

definition service_accepts :: "(pystr \<Rightarrow> get_result) \<Rightarrow> pystr \<Rightarrow> pystr \<Rightarrow> bool" where
  "service_accepts net expected service =
     (case net service of
        GetRaises e \<Rightarrow> False
      | Response r \<Rightarrow> status_code r = 200 \<and> actual_ip service r = Inr (IpStr expected))"

definition service_aborts :: "(pystr \<Rightarrow> get_result) \<Rightarrow> pystr \<Rightarrow> bool" where
  "service_aborts net service =
     (case net service of
        GetRaises e \<Rightarrow> e \<noteq> RequestException
      | Response r \<Rightarrow>
          status_code r = 200 \<and>
          (case actual_ip service r of Inl e \<Rightarrow> e \<noteq> RequestException | Inr ip \<Rightarrow> False))"

text \<open>A platform whose clock refuses sleeps of 9223372036 seconds and more.\<close>

definition clock_limit :: "int \<Rightarrow> bool" where
  "clock_limit secs = (9223372036 \<le> secs)"


section \<open>Deduplication\<close>

lemma accept_bets_known:
  "known_bets (snd (accept_bets m bs)) = known_bets m \<union> betslip_id ` set bs"
  by (induction bs arbitrary: m) (auto simp: split_def Let_def)

lemma accept_bets_history:
  "bet_history (snd (accept_bets m bs)) = bet_history m @ fst (accept_bets m bs)"
  by (induction bs arbitrary: m) (auto simp: split_def Let_def)












section \<open>The seen-set and the history move together\<close>

lemma lockstep_accept: "lockstep m \<Longrightarrow> lockstep (snd (accept_bets m bs))"
  by (induction bs arbitrary: m) (auto simp: split_def Let_def lockstep_def)

lemma lockstep_run: "lockstep m \<Longrightarrow> lockstep (run_checks m scans)"
  by (induction scans arbitrary: m) (auto simp: check_for_new_bets_def lockstep_accept)

lemma lockstep_card: "lockstep m \<Longrightarrow> card (known_bets m) = length (bet_history m)"
  unfolding lockstep_def by (metis distinct_card length_map set_map)

lemma lockstep_new: "lockstep new_monitor"
  by (simp add: lockstep_def new_monitor_def)

lemma lockstep_member:
  "lockstep m \<Longrightarrow> b \<in> set (bet_history m) \<Longrightarrow> betslip_id b \<in> known_bets m"
  by (simp add: lockstep_def)

lemma grows_refl: "grows m m"
  by (simp add: grows_def)

lemma grows_trans: "grows m1 m2 \<Longrightarrow> grows m2 m3 \<Longrightarrow> grows m1 m3"
  unfolding grows_def
  by (metis append_eq_conv_conj append_take_drop_id subset_trans take_take)

lemma grows_accept: "grows m (snd (accept_bets m bs))"
  by (simp add: grows_def accept_bets_known accept_bets_history)

lemma try_body_monitor:
  assumes "bet_monitor a = Some m"
  shows "\<exists>m'. bet_monitor (snd (snd (try_body ci ev cc ce a))) = Some m' \<and> grows m m'
           \<and> (lockstep m \<longrightarrow> lockstep m')"
proof (cases "cc mod 10 = 0 \<and> refresh_raises ev")
  case True
  with assms show ?thesis by (simp add: try_body_def grows_refl)
next
  case False
  show ?thesis
  proof (cases "scanned ev")
    case None
    with False assms show ?thesis
      by (auto simp: try_body_def emit_def grows_refl)
  next
    case (Some cur)
    with False assms show ?thesis
      by (auto simp: try_body_def emit_def Let_def split_def check_for_new_bets_def
          grows_accept lockstep_accept split: option.splits)
  qed
qed

lemma monitoring_loop_monitor:
  "bet_monitor a = Some m \<Longrightarrow>
   \<exists>m'. bet_monitor (snd (snd (snd (monitoring_loop too_long ci me evs ce cc a)))) = Some m' \<and> grows m m'
           \<and> (lockstep m \<longrightarrow> lockstep m')"
proof (induction evs arbitrary: a m ce cc)
  case Nil
  then show ?case by (simp add: grows_refl monitoring_loop.simps)
next
  case (Cons ev evs)
  obtain r ce1 a1 where tb: "try_body ci ev (cc + 1) ce a = (r, ce1, a1)"
    by (cases "try_body ci ev (cc + 1) ce a") auto
  from try_body_monitor[OF Cons.prems, of ci ev "cc + 1" ce] tb
  obtain m1 where m1: "bet_monitor a1 = Some m1" "grows m m1" "lockstep m \<longrightarrow> lockstep m1"
    by auto
  let ?a2 = "if r then emit [Navigate] a1 else a1"
  have a2: "bet_monitor (emit [Sleep ci] ?a2) = Some m1"
    using m1 by (simp add: emit_def)
  from Cons.IH[OF a2, where ce = "if r then ce1 + 1 else ce1" and cc = "cc + 1"]
  obtain m2 where m2:
    "bet_monitor (snd (snd (snd (monitoring_loop too_long ci me evs (if r then ce1 + 1 else ce1) (cc + 1)
        (emit [Sleep ci] ?a2))))) = Some m2" "grows m1 m2" "lockstep m1 \<longrightarrow> lockstep m2"
    by auto
  have g: "grows m m2" using m1 m2 grows_trans by blast
  show ?case
    using tb m1 m2 g by (auto simp: Let_def emit_def monitoring_loop.simps)
qed

text \<open>
  Claim C10. After any sequence of calls of the new-bet check on a fresh monitor, the
  seen-set has as many identifiers as the history has records, and the identifier of
  every history record is in the set. A call removes nothing: the set after it
  contains the set before it, and the history after it is the history before it
  followed by the records the call returned. The same holds for the monitor of the
  application object across any number of iterations of the monitoring loop, which
  changes it only through the new-bet check.
\<close>

theorem seen_set_history_lockstep:
  "card (known_bets (run_checks new_monitor scans)) =
     length (bet_history (run_checks new_monitor scans))
   \<and> (\<forall>b \<in> set (bet_history (run_checks new_monitor scans)).
         betslip_id b \<in> known_bets (run_checks new_monitor scans))
   \<and> known_bets m \<subseteq> known_bets (snd (check_for_new_bets m current_bets))
   \<and> bet_history (snd (check_for_new_bets m current_bets)) =
       bet_history m @ fst (check_for_new_bets m current_bets)
   \<and> (bet_monitor a = Some m \<longrightarrow>
        (\<exists>m'. bet_monitor (snd (snd (snd (monitoring_loop too_long ci me evs ce cc a)))) = Some m'
           \<and> known_bets m \<subseteq> known_bets m'
           \<and> take (length (bet_history m)) (bet_history m') = bet_history m
           \<and> (m = new_monitor \<longrightarrow>
                card (known_bets m') = length (bet_history m')
                \<and> (\<forall>b \<in> set (bet_history m'). betslip_id b \<in> known_bets m'))))"
proof (intro conjI impI)
  have l: "lockstep (run_checks new_monitor scans)"
    by (rule lockstep_run[OF lockstep_new])
  show "card (known_bets (run_checks new_monitor scans)) =
      length (bet_history (run_checks new_monitor scans))"
    by (rule lockstep_card[OF l])
  show "\<forall>b \<in> set (bet_history (run_checks new_monitor scans)).
         betslip_id b \<in> known_bets (run_checks new_monitor scans)"
    using lockstep_member[OF l] by blast
  show "known_bets m \<subseteq> known_bets (snd (check_for_new_bets m current_bets))"
    by (simp add: check_for_new_bets_def accept_bets_known)
  show "bet_history (snd (check_for_new_bets m current_bets)) =
       bet_history m @ fst (check_for_new_bets m current_bets)"
    by (simp add: check_for_new_bets_def accept_bets_history)
next
  assume "bet_monitor a = Some m"
  from monitoring_loop_monitor[OF this, where too_long = too_long and ci = ci and me = me
      and evs = evs and ce = ce and cc = cc]
  obtain m' where m': "bet_monitor (snd (snd (snd (monitoring_loop too_long ci me evs ce cc a)))) = Some m'"
    "grows m m'" "lockstep m \<longrightarrow> lockstep m'" by auto
  have "m = new_monitor \<longrightarrow>
          card (known_bets m') = length (bet_history m')
          \<and> (\<forall>b \<in> set (bet_history m'). betslip_id b \<in> known_bets m')"
    using m'(3) lockstep_new lockstep_card lockstep_member by blast
  with m'(1,2)
  show "\<exists>m'. bet_monitor (snd (snd (snd (monitoring_loop too_long ci me evs ce cc a)))) = Some m'
           \<and> known_bets m \<subseteq> known_bets m'
           \<and> take (length (bet_history m)) (bet_history m') = bet_history m
           \<and> (m = new_monitor \<longrightarrow>
                card (known_bets m') = length (bet_history m')
                \<and> (\<forall>b \<in> set (bet_history m'). betslip_id b \<in> known_bets m'))"
    unfolding grows_def by blast
qed

theorem seen_set_history_lockstep_witness:
  "card (known_bets (run_checks new_monitor
       [[sample_bet (S ''slip-1'') (S ''A vs B''), sample_bet (S ''slip-2'') (S ''C vs D''),
         sample_bet (S ''slip-1'') (S ''A vs B again'')],
        [sample_bet (S ''slip-2'') (S ''C vs D''), sample_bet (S ''slip-3'') (S ''E vs F'')]])) = 3
   \<and> length (bet_history (run_checks new_monitor
       [[sample_bet (S ''slip-1'') (S ''A vs B''), sample_bet (S ''slip-2'') (S ''C vs D''),
         sample_bet (S ''slip-1'') (S ''A vs B again'')],
        [sample_bet (S ''slip-2'') (S ''C vs D''), sample_bet (S ''slip-3'') (S ''E vs F'')]])) = 3
   \<and> bet_monitor ready_app = Some new_monitor
   \<and> (\<exists>m'. bet_monitor (snd (snd (snd (monitoring_loop clock_limit 30 5
               [Iter False (Some [sample_bet (S ''slip-1'') (S ''A vs B'')]) False,
                Iter False (Some [sample_bet (S ''slip-1'') (S ''A vs B'')]) False]
               0 0 ready_app)))) = Some m'
          \<and> card (known_bets m') = length (bet_history m'))"
proof -
  let ?scans =
    "[[sample_bet (S ''slip-1'') (S ''A vs B''), sample_bet (S ''slip-2'') (S ''C vs D''),
       sample_bet (S ''slip-1'') (S ''A vs B again'')],
      [sample_bet (S ''slip-2'') (S ''C vs D''), sample_bet (S ''slip-3'') (S ''E vs F'')]]"
  let ?evs =
    "[Iter False (Some [sample_bet (S ''slip-1'') (S ''A vs B'')]) False,
      Iter False (Some [sample_bet (S ''slip-1'') (S ''A vs B'')]) False]"
  note t = seen_set_history_lockstep[where scans = ?scans and a = ready_app
      and m = new_monitor and too_long = clock_limit and ci = 30 and me = 5 and ce = 0
      and cc = 0 and evs = ?evs]
  have h: "bet_monitor ready_app = Some new_monitor"
    by (simp add: ready_app_def)
  have n: "length (bet_history (run_checks new_monitor ?scans)) = 3"
    by (simp add: sample_bet_def check_for_new_bets_def new_monitor_def S_def)
  from t n have c: "card (known_bets (run_checks new_monitor ?scans)) = 3"
    by simp
  from t h have "\<exists>m'. bet_monitor (snd (snd (snd (monitoring_loop clock_limit 30 5 ?evs 0 0 ready_app)))) = Some m'
      \<and> card (known_bets m') = length (bet_history m')"
    by blast
  with c n h show ?thesis by blast
qed

section \<open>The scenario of the extractor\<close>

lemma scenario_split: "split_nl scenario_text = scenario_lines"
  by (simp add: scenario_text_def scenario_lines_def S_def)

lemma scenario_strip: "strip scenario_text = scenario_text"
  by (simp add: scenario_text_def S_def strip_def is_space_def)

lemma scenario_length: "length scenario_text = 65" "scenario_text \<noteq> []"
  by (simp_all add: scenario_text_def S_def)

lemma scenario_teams: "extract_teams scenario_lines = S ''Arsenal vs Chelsea''"
  by (simp add: scenario_lines_def S_def extract_teams_def first_line_def teams_line_def)

lemma scenario_market: "extract_market scenario_lines = S ''1X2 Home''"
  by (simp add: scenario_lines_def S_def extract_market_def first_line_def market_line_def
      market_keywords_def)

lemma scenario_stake: "extract_stake scenario_lines = [8364] @ S ''25.00 stake''"
  by (simp add: scenario_lines_def S_def extract_stake_def first_line_def stake_line_def)

lemma scenario_first_odds:
  "first_line (re_search_odds db) scenario_lines = Some ([8364] @ S ''25.00 stake'')"
  by (simp add: scenario_lines_def S_def first_line_def is_digit_def)

lemma scenario_odds: "extract_odds db scenario_lines = [8364] @ S ''25.00 stake''"
  by (simp add: extract_odds_def scenario_first_odds)

lemma scenario_winnings:
  assumes "\<forall>s i. s ! i = 8364 \<longrightarrow> lower_of db s i = [8364]"
  shows "extract_winnings db scenario_lines = S ''Possible win '' @ [8364] @ S ''60.00''"
  using assms
  by (simp add: scenario_lines_def S_def extract_winnings_def first_line_def winnings_line_def
      winnings_keywords_def py_lower_def lower_char_def upt_rec)

text \<open>
  The record of the scenario for any character database in which the euro sign is its
  own lower case, any clock, any index and any \<open>id\<close> attribute that can be read.
\<close>

lemma scenario_fields:
  assumes "\<forall>s i. s ! i = 8364 \<longrightarrow> lower_of db s i = [8364]"
  shows "\<exists>bet. extract_bet_info db now stamp
                 \<lparr>el_text = Some scenario_text, el_id = Attr eid\<rparr> index = Some bet
     \<and> teams bet = S ''Arsenal vs Chelsea''
     \<and> market bet = S ''1X2 Home''
     \<and> stake bet = [8364] @ S ''25.00 stake''
     \<and> odds bet = [8364] @ S ''25.00 stake''
     \<and> possible_winnings bet = S ''Possible win '' @ [8364] @ S ''60.00''
     \<and> first_line (re_search_odds db) (split_nl (strip scenario_text)) = Some (odds bet)"
  using scenario_winnings[OF assms]
  by (simp add: extract_bet_info_def scenario_strip scenario_length scenario_split scenario_teams
      scenario_market scenario_stake scenario_odds scenario_first_odds Let_def)

text \<open>
  Claim C1 at its own input. For the text block of the scenario, given as the text of
  one container, the extractor produces a record with the participants, the market, the
  stake and the payout that the claim names. Its odds field is not \<open>2.40\<close>: it is
  the stake line, because the search for the decimal-odds pattern is not anchored and
  finds 25.00 in that line, which comes before the line \<open>2.40\<close>. The same holds
  when the five lines are given to the odds matcher directly.
\<close>

theorem scenario_odds_is_stake_line:
  "map_option (\<lambda>bet. (teams bet, market bet, stake bet, odds bet, possible_winnings bet))
     (extract_bet_info ascii_db 1700000000 (S ''2024-01-01 12:00:00'')
        \<lparr>el_text = Some scenario_text, el_id = Attr None\<rparr> 0) =
   Some (S ''Arsenal vs Chelsea'', S ''1X2 Home'', [8364] @ S ''25.00 stake'',
         [8364] @ S ''25.00 stake'', S ''Possible win '' @ [8364] @ S ''60.00'')
   \<and> [8364] @ S ''25.00 stake'' \<noteq> S ''2.40''
   \<and> re_search_odds ascii_db ([8364] @ S ''25.00 stake'')
   \<and> extract_odds ascii_db
        [S ''Arsenal vs Chelsea'', S ''1X2 Home'', [8364] @ S ''25.00 stake'', S ''2.40'',
         S ''Possible win '' @ [8364] @ S ''60.00''] = [8364] @ S ''25.00 stake''"
proof -
  have h: "\<forall>s i. s ! i = 8364 \<longrightarrow> lower_of ascii_db s i = [8364]"
    by (simp add: ascii_db_def)
  from scenario_fields[OF h, of 1700000000 "S ''2024-01-01 12:00:00''" None 0]
  have 1: "map_option (\<lambda>bet. (teams bet, market bet, stake bet, odds bet, possible_winnings bet))
     (extract_bet_info ascii_db 1700000000 (S ''2024-01-01 12:00:00'')
        \<lparr>el_text = Some scenario_text, el_id = Attr None\<rparr> 0) =
   Some (S ''Arsenal vs Chelsea'', S ''1X2 Home'', [8364] @ S ''25.00 stake'',
         [8364] @ S ''25.00 stake'', S ''Possible win '' @ [8364] @ S ''60.00'')"
    by auto
  have 2: "[8364] @ S ''25.00 stake'' \<noteq> S ''2.40''"
    by (simp add: S_def)
  have 3: "re_search_odds ascii_db ([8364] @ S ''25.00 stake'')"
    by (simp add: S_def is_digit_def)
  have 4: "extract_odds ascii_db
        [S ''Arsenal vs Chelsea'', S ''1X2 Home'', [8364] @ S ''25.00 stake'', S ''2.40'',
         S ''Possible win '' @ [8364] @ S ''60.00''] = [8364] @ S ''25.00 stake''"
    using scenario_odds[of ascii_db] by (simp add: scenario_lines_def)
  from 1 2 3 4 show ?thesis by blast
qed

section \<open>Every field is a line of the input or its sentinel\<close>


lemma first_line_None: "first_line p ls = None \<Longrightarrow> \<forall>l \<in> set ls. \<not> p l"
  unfolding first_line_def by (induction ls) (auto split: if_splits)

lemma contains_empty: "sub \<noteq> [] \<Longrightarrow> \<not> contains sub []"
  by simp





















section \<open>The table-row fallback\<close>

lemma scan_for_bets_strategy:
  "scan_for_bets db ck (Some pg) =
     (if scan_containers db ck (containers pg) = [] then scan_rows ck (table_rows pg)
      else scan_containers db ck (containers pg))"
  by (simp add: scan_for_bets_def Let_def)

text \<open>
  Claim C8, as the code has it. The scan returns the records of the containers when
  there is at least one, and only otherwise the records of the table rows. A row with
  at least three cells gives a record whose participants, market and stake are the
  stripped texts of the first three cells, and whose odds and payout are the stripped
  texts of the fourth and fifth cell, each replaced by the literal \<open>Unknown\<close> when
  the row has no such cell. A row with fewer than three cells gives no record.
\<close>

theorem table_row_fallback:
  "(scan_containers db ck (containers pg) \<noteq> [] \<longrightarrow>
      scan_for_bets db ck (Some pg) = scan_containers db ck (containers pg))
   \<and> (scan_containers db ck (containers pg) = [] \<longrightarrow>
      scan_for_bets db ck (Some pg) = scan_rows ck (table_rows pg))
   \<and> scan_rows ck rs =
       List.map_filter
         (\<lambda>(i, r). extract_bet_from_row (now_at ck Rows i) (stamp_at ck Rows i) r i)
         (enumerate 0 rs)
   \<and> extract_bet_from_row now stamp (Some cells) index =
       (if length cells < 3 then None
        else Some \<lparr>betslip_id = row_id now index,
                   teams = strip (cells ! 0),
                   market = strip (cells ! 1),
                   stake = strip (cells ! 2),
                   odds = (if 3 < length cells then strip (cells ! 3) else S ''Unknown''),
                   possible_winnings =
                     (if 4 < length cells then strip (cells ! 4) else S ''Unknown''),
                   bet_time = stamp,
                   status = S ''Active''\<rparr>)"
  by (simp add: scan_for_bets_strategy scan_rows_def extract_bet_from_row_def Let_def)

theorem table_row_fallback_witness:
  "scan_containers ascii_db \<lparr>now_at = (\<lambda>s i. 1700000000), stamp_at = (\<lambda>s i. S ''2024-01-01 12:00:00'')\<rparr> [] = []
   \<and> scan_for_bets ascii_db \<lparr>now_at = (\<lambda>s i. 1700000000), stamp_at = (\<lambda>s i. S ''2024-01-01 12:00:00'')\<rparr>
       (Some \<lparr>containers = [],
              table_rows = [Some [S '' Arsenal vs Chelsea '', S ''1X2 Home'', S ''25.00'']]\<rparr>) =
     [\<lparr>betslip_id = S ''row_bet_1700000000_0'',
       teams = S ''Arsenal vs Chelsea'', market = S ''1X2 Home'', stake = S ''25.00'',
       odds = S ''Unknown'', possible_winnings = S ''Unknown'',
       bet_time = S ''2024-01-01 12:00:00'', status = S ''Active''\<rparr>]"
proof -
  let ?ck = "\<lparr>now_at = (\<lambda>s i. 1700000000), stamp_at = (\<lambda>s i. S ''2024-01-01 12:00:00'')\<rparr>"
  let ?cells = "[S '' Arsenal vs Chelsea '', S ''1X2 Home'', S ''25.00'']"
  let ?pg = "\<lparr>containers = [], table_rows = [Some ?cells]\<rparr>"
  note t = table_row_fallback[of ascii_db ?ck ?pg "[Some ?cells]" 1700000000
      "S ''2024-01-01 12:00:00''" ?cells 0]
  have c: "scan_containers ascii_db ?ck [] = []"
    by (simp add: scan_containers_def enumerate_eq_zip)
  have d1: "digits_of 1700000000 = S ''1700000000''" "digits_of 0 = S ''0''"
    by (simp_all add: digits_of.simps S_def)
  have d: "row_id 1700000000 0 = S ''row_bet_1700000000_0''"
    by (simp add: row_id_def str_int_def d1) (simp add: S_def)
  have s: "strip (?cells ! 0) = S ''Arsenal vs Chelsea''" "strip (?cells ! 1) = S ''1X2 Home''"
    "strip (?cells ! 2) = S ''25.00''"
    by (simp_all add: strip_def is_space_def S_def)
  from t c have 1: "scan_for_bets ascii_db ?ck (Some ?pg) = scan_rows ?ck [Some ?cells]"
    by simp
  from t have 2: "scan_rows ?ck [Some ?cells] =
      List.map_filter
         (\<lambda>(i, r). extract_bet_from_row (now_at ?ck Rows i) (stamp_at ?ck Rows i) r i)
         (enumerate 0 [Some ?cells])"
    by blast
  from t have 3: "extract_bet_from_row 1700000000 (S ''2024-01-01 12:00:00'') (Some ?cells) 0 =
     Some \<lparr>betslip_id = row_id 1700000000 0,
                   teams = strip (?cells ! 0),
                   market = strip (?cells ! 1),
                   stake = strip (?cells ! 2),
                   odds = S ''Unknown'',
                   possible_winnings = S ''Unknown'',
                   bet_time = S ''2024-01-01 12:00:00'',
                   status = S ''Active''\<rparr>"
    by simp
  have 4: "scan_rows ?ck [Some ?cells] =
     [\<lparr>betslip_id = row_id 1700000000 0,
                   teams = strip (?cells ! 0),
                   market = strip (?cells ! 1),
                   stake = strip (?cells ! 2),
                   odds = S ''Unknown'',
                   possible_winnings = S ''Unknown'',
                   bet_time = S ''2024-01-01 12:00:00'',
                   status = S ''Active''\<rparr>]"
    unfolding 2 by (simp add: 3)
  show ?thesis
    unfolding 1 4 d s using c by simp
qed

text \<open>
  Claim C8 as stated fails: a row with two cells is not mapped to a record with
  \<open>Unknown\<close> in the missing places; it yields no record, and a page whose only row
  it is yields no bets.
\<close>

theorem short_row_counterexample:
  "extract_bet_from_row 1700000000 (S ''2024-01-01 12:00:00'')
     (Some [S ''Arsenal vs Chelsea'', S ''1X2 Home'']) 0 = None
   \<and> scan_for_bets ascii_db
       \<lparr>now_at = (\<lambda>s i. 1700000000), stamp_at = (\<lambda>s i. S ''2024-01-01 12:00:00'')\<rparr>
       (Some \<lparr>containers = [],
              table_rows = [Some [S ''Arsenal vs Chelsea'', S ''1X2 Home'']]\<rparr>) = []"
  by (simp add: extract_bet_from_row_def scan_for_bets_def scan_containers_def scan_rows_def
      enumerate_eq_zip)

section \<open>Persisting the history\<close>









section \<open>Proxy verification\<close>

text \<open>
  What holds of the loop over the services: when no service aborts the check, the
  result is \<open>True\<close> exactly when some service accepts; and the result \<open>False\<close> is
  only ever returned when no service accepts.
\<close>

lemma try_services_no_abort:
  "\<forall>s \<in> set services. \<not> service_aborts net s \<Longrightarrow>
   try_services net expected services =
     Inr (\<exists>s \<in> set services. service_accepts net expected s)"
  by (induction services)
    (auto simp: service_aborts_def service_accepts_def split: get_result.splits sum.splits)

lemma try_services_False:
  "try_services net expected services = Inr False \<Longrightarrow>
   \<forall>s \<in> set services. \<not> service_accepts net expected s"
  by (induction services)
    (auto simp: service_accepts_def split: get_result.splits sum.splits if_splits)

text \<open>
  Claim C5 at the failing input. The first service answers 200 with a JSON body that
  is not an object; reading \<open>ip\<close> from it raises \<open>AttributeError\<close>, which the
  handler for \<open>RequestException\<close> does not catch, so \<open>verify_proxy\<close> ends with
  that exception instead of going on to the second service, which reports the expected
  address and would have been accepted.
\<close>

theorem verify_proxy_aborts_on_array_body:
  "verify_proxy array_body_net sample_proxy = Inl AttributeError
   \<and> try_services array_body_net (expected_ip sample_proxy) (tl ip_services) = Inr True"
  by (simp add: verify_proxy_def ip_services_def array_body_net_def sample_proxy_def actual_ip_def
      strip_def is_space_def S_def)

section \<open>Status messages of a trace\<close>

lemma statuses_Nil: "statuses [] = []"
  by (simp add: statuses_def)

lemma statuses_Cons:
  "statuses (x # xs) = (case x of Status m \<Rightarrow> [m] | _ \<Rightarrow> []) @ statuses xs"
  by (simp add: statuses_def)

lemma statuses_append: "statuses (xs @ ys) = statuses xs @ statuses ys"
  by (simp add: statuses_def)

lemma statuses_map_NotifyBet: "statuses (map NotifyBet bs) = []"
  by (induction bs) (simp_all add: statuses_Nil statuses_Cons)

lemmas statuses_simps = statuses_Nil statuses_Cons statuses_append statuses_map_NotifyBet

lemma cleanup_statuses: "statuses (trace (cleanup a)) = statuses (trace a)"
  by (simp add: cleanup_def emit_def Let_def statuses_simps)

lemma cleanup_active: "monitoring_active (cleanup a) = monitoring_active a"
  by (simp add: cleanup_def emit_def Let_def)

lemma finally_statuses: "statuses (trace (finally_clause a)) = statuses (trace a)"
  by (simp add: finally_clause_def cleanup_statuses)

lemma finally_inactive: "\<not> monitoring_active (finally_clause a)"
  by (simp add: finally_clause_def cleanup_active)

section \<open>The kill switch of \<open>initialize\<close>\<close>

lemma init_failed_new: "init_failed new_app = (False, new_app)"
  by (simp add: init_failed_def new_app_def cleanup_def)

text \<open>
  Claim C4. When proxy verification returns false, \<open>initialize\<close> on a fresh
  application object returns false at once. Its only effect is the status message that
  start-up failed on the proxy (and not even that when the notifier cannot be
  constructed): the browser is never launched, no login is attempted, no browser
  manager, driver or bet monitor exists afterwards, monitoring is not active, and a
  call of the monitoring loop on the object returns without doing anything.
\<close>

theorem kill_switch_ordering:
  assumes "verify_proxy (service_replies env) proxy_config = Inr False"
  shows "fst (initialize proxy_config env new_app) = False
     \<and> trace (snd (initialize proxy_config env new_app)) =
         (if notifier_raises env then [] else [Status StartupFailedProxy])
     \<and> LaunchBrowser \<notin> set (trace (snd (initialize proxy_config env new_app)))
     \<and> Login \<notin> set (trace (snd (initialize proxy_config env new_app)))
     \<and> \<not> browser_manager (snd (initialize proxy_config env new_app))
     \<and> \<not> driver (snd (initialize proxy_config env new_app))
     \<and> bet_monitor (snd (initialize proxy_config env new_app)) = None
     \<and> \<not> monitoring_active (snd (initialize proxy_config env new_app))
     \<and> run_monitoring_loop too_long check_interval max_errors evs (snd (initialize proxy_config env new_app)) =
         (True, snd (initialize proxy_config env new_app))"
proof (cases "notifier_raises env")
  case True
  with assms have "initialize proxy_config env new_app = (False, new_app)"
    by (simp add: initialize_def init_failed_new)
  with True show ?thesis
    by (simp add: new_app_def run_monitoring_loop_def)
next
  case False
  with assms have "initialize proxy_config env new_app =
      (False, emit [Status StartupFailedProxy] (new_app\<lparr>telegram_notifier := True\<rparr>))"
    by (simp add: initialize_def)
  with False show ?thesis
    by (simp add: new_app_def emit_def run_monitoring_loop_def)
qed

theorem kill_switch_ordering_witness:
  "verify_proxy mismatch_net sample_proxy = Inr False
   \<and> fst (initialize sample_proxy
        \<lparr>service_replies = mismatch_net, notifier_raises = False, launch_raises = False,
         login_ok = True, history_ok = True\<rparr> new_app) = False
   \<and> trace (snd (initialize sample_proxy
        \<lparr>service_replies = mismatch_net, notifier_raises = False, launch_raises = False,
         login_ok = True, history_ok = True\<rparr> new_app)) = [Status StartupFailedProxy]"
proof -
  let ?env = "\<lparr>service_replies = mismatch_net, notifier_raises = False, launch_raises = False,
         login_ok = True, history_ok = True\<rparr>"
  have v: "verify_proxy mismatch_net sample_proxy = Inr False"
    by (simp add: verify_proxy_def ip_services_def mismatch_net_def sample_proxy_def actual_ip_def
        strip_def is_space_def S_def)
  then have "verify_proxy (service_replies ?env) sample_proxy = Inr False"
    by simp
  from kill_switch_ordering[OF this]
  have "fst (initialize sample_proxy ?env new_app) = False"
    "trace (snd (initialize sample_proxy ?env new_app)) = [Status StartupFailedProxy]"
    by simp_all
  with v show ?thesis by simp
qed

section \<open>The error budget of the monitoring loop\<close>

lemma try_body_scan_raises:
  assumes "scanned ev = None"
  shows "\<exists>a1. try_body ci ev cc ce a = (True, ce, a1) \<and> statuses (trace a1) = statuses (trace a)"
  using assms
  by (auto simp: try_body_def emit_def Let_def statuses_simps split: option.splits)

lemma monitoring_loop_prefix:
  "monitoring_loop too_long ci me pre ce cc a = (OutOfEvents, ce1, cc1, a1) \<Longrightarrow>
   monitoring_loop too_long ci me (pre @ tail_evs) ce cc a = monitoring_loop too_long ci me tail_evs ce1 cc1 a1"
proof (induction pre arbitrary: ce cc a)
  case Nil
  then show ?case by (simp add: monitoring_loop.simps)
next
  case (Cons ev pre)
  obtain r c b where tb: "try_body ci ev (cc + 1) ce a = (r, c, b)"
    by (cases "try_body ci ev (cc + 1) ce a") auto
  from Cons.prems tb show ?case
    by (auto simp: Let_def monitoring_loop.simps split: if_splits intro: Cons.IH)
qed

lemma failing_iteration_continues:
  assumes "\<not> sleep_raises too_long ci" "scanned ev = None" "\<not> interrupt ev" "ce + 1 < me"
  shows "\<exists>a1. monitoring_loop too_long ci me (ev # rest) ce cc a =
            monitoring_loop too_long ci me rest (ce + 1) (cc + 1) a1
          \<and> statuses (trace a1) = statuses (trace a)"
proof -
  from try_body_scan_raises[OF assms(2), of ci "cc + 1" ce a]
  obtain b where b: "try_body ci ev (cc + 1) ce a = (True, ce, b)"
    "statuses (trace b) = statuses (trace a)" by blast
  let ?a1 = "emit [Sleep ci] (emit [Navigate] b)"
  have "monitoring_loop too_long ci me (ev # rest) ce cc a =
      monitoring_loop too_long ci me rest (ce + 1) (cc + 1) ?a1"
    using assms b by (simp add: Let_def monitoring_loop.simps)
  moreover have "statuses (trace ?a1) = statuses (trace a)"
    using b by (simp add: emit_def statuses_simps)
  ultimately show ?thesis by blast
qed

lemma failing_iteration_breaks:
  assumes "scanned ev = None" "me \<le> ce + 1"
  shows "\<exists>a1. monitoring_loop too_long ci me (ev # rest) ce cc a = (Break, ce + 1, cc + 1, a1)
          \<and> statuses (trace a1) = statuses (trace a) @ [TooManyErrors]"
proof -
  from try_body_scan_raises[OF assms(1), of ci "cc + 1" ce a]
  obtain b where b: "try_body ci ev (cc + 1) ce a = (True, ce, b)"
    "statuses (trace b) = statuses (trace a)" by blast
  have "monitoring_loop too_long ci me (ev # rest) ce cc a =
      (Break, ce + 1, cc + 1, emit [Status TooManyErrors] b)"
    using assms b by (simp add: Let_def monitoring_loop.simps)
  moreover have "statuses (trace (emit [Status TooManyErrors] b)) =
      statuses (trace a) @ [TooManyErrors]"
    using b by (simp add: emit_def statuses_simps)
  ultimately show ?thesis by blast
qed

lemma failing_run_continues:
  assumes "\<not> sleep_raises too_long ci"
  shows "\<forall>ev \<in> set evs. scanned ev = None \<and> \<not> interrupt ev \<Longrightarrow>
         ce + int (length evs) < me \<Longrightarrow>
         \<exists>a1. monitoring_loop too_long ci me (evs @ rest) ce cc a =
                monitoring_loop too_long ci me rest (ce + int (length evs)) (cc + int (length evs)) a1
              \<and> statuses (trace a1) = statuses (trace a)"
proof (induction evs arbitrary: ce cc a)
  case Nil
  then show ?case by auto
next
  case (Cons ev evs)
  have 1: "scanned ev = None" "\<not> interrupt ev" "ce + 1 < me"
    using Cons.prems by auto
  from failing_iteration_continues[OF assms 1, where rest = "evs @ rest" and cc = cc and a = a]
  obtain b where b: "monitoring_loop too_long ci me (ev # evs @ rest) ce cc a =
            monitoring_loop too_long ci me (evs @ rest) (ce + 1) (cc + 1) b"
    "statuses (trace b) = statuses (trace a)" by blast
  have 2: "\<forall>ev \<in> set evs. scanned ev = None \<and> \<not> interrupt ev"
    "(ce + 1) + int (length evs) < me"
    using Cons.prems by auto
  from Cons.IH[OF 2, where cc = "cc + 1" and a = b]
  obtain a1 where a1: "monitoring_loop too_long ci me (evs @ rest) (ce + 1) (cc + 1) b =
      monitoring_loop too_long ci me rest (ce + 1 + int (length evs)) (cc + 1 + int (length evs)) a1"
    "statuses (trace a1) = statuses (trace b)" by blast
  have "monitoring_loop too_long ci me ((ev # evs) @ rest) ce cc a =
      monitoring_loop too_long ci me rest (ce + int (length (ev # evs))) (cc + int (length (ev # evs))) a1"
    using b(1) a1(1) by (simp add: add.assoc)
  moreover have "statuses (trace a1) = statuses (trace a)"
    using a1(2) b(2) by simp
  ultimately show ?case by blast
qed

lemma try_body_success_resets:
  "\<not> fst (try_body ci ev cc ce a) \<Longrightarrow> fst (snd (try_body ci ev cc ce a)) = 0"
  by (auto simp: try_body_def Let_def split_def split: option.splits if_splits)

text \<open>
  What holds of the budget. Let the budget be five and the sleep not fail, and let the
  loop be still running, with the consecutive-error counter at zero, after the
  iterations \<open>pre\<close>. If the next five iterations each raise in the new-bet check, hence
  before the counter is reset, then the loop ends by \<open>break\<close> in the fifth of them, with
  exactly one status message, the terminal one, and the method returns through its
  \<open>finally\<close> clause. An iteration whose \<open>try\<close> body does not raise leaves the counter
  at zero. With the repository's own collaborators the new-bet check does not raise, so
  this covers a bet monitor whose scan has been replaced.
\<close>

lemma error_budget_before_reset:
  assumes "\<not> sleep_raises too_long check_interval"
    and "monitoring_active a"
    and "monitoring_loop too_long check_interval 5 pre 0 0 a = (OutOfEvents, 0, n, a1)"
    and "length failing = 5"
    and "\<forall>ev \<in> set failing. scanned ev = None \<and> \<not> interrupt ev"
  shows "(\<exists>a2. monitoring_loop too_long check_interval 5 (pre @ failing @ rest) 0 0 a = (Break, 5, n + 5, a2)
           \<and> statuses (trace a2) = statuses (trace a1) @ [TooManyErrors]
           \<and> run_monitoring_loop too_long check_interval 5 (pre @ failing @ rest) a =
               (True, finally_clause a2)
           \<and> statuses (trace (finally_clause a2)) = statuses (trace a1) @ [TooManyErrors]
           \<and> \<not> monitoring_active (finally_clause a2))
       \<and> (\<not> fst (try_body check_interval ev (cc + 1) ce b) \<longrightarrow>
            fst (snd (try_body check_interval ev (cc + 1) ce b)) = 0
            \<and> fst (snd (monitoring_loop too_long check_interval max_errors [ev] ce cc b)) = 0)"
proof (rule conjI)
  obtain first4 last1 where f: "failing = first4 @ [last1]" "length first4 = 4"
    using assms(4) by (cases failing rule: rev_cases) auto
  have 1: "\<forall>ev \<in> set first4. scanned ev = None \<and> \<not> interrupt ev"
    "0 + int (length first4) < 5" "scanned last1 = None"
    using assms(5) f by auto
  from failing_run_continues[OF assms(1) 1(1,2), where rest = "last1 # rest" and cc = n and a = a1]
  obtain b1 where b1: "monitoring_loop too_long check_interval 5 (first4 @ last1 # rest) 0 n a1 =
      monitoring_loop too_long check_interval 5 (last1 # rest) 4 (n + 4) b1"
    "statuses (trace b1) = statuses (trace a1)"
    using f(2) by auto
  from failing_iteration_breaks[OF 1(3), where me = 5 and ce = 4 and too_long = too_long
      and ci = check_interval and rest = rest and cc = "n + 4" and a = b1]
  obtain a2 where a2: "monitoring_loop too_long check_interval 5 (last1 # rest) 4 (n + 4) b1 =
      (Break, 5, n + 5, a2)" "statuses (trace a2) = statuses (trace b1) @ [TooManyErrors]"
    by auto
  have l: "monitoring_loop too_long check_interval 5 (pre @ failing @ rest) 0 0 a = (Break, 5, n + 5, a2)"
    using monitoring_loop_prefix[OF assms(3), where tail_evs = "failing @ rest"] b1(1) a2(1) f(1)
    by simp
  have s: "statuses (trace a2) = statuses (trace a1) @ [TooManyErrors]"
    using a2(2) b1(2) by simp
  have r: "run_monitoring_loop too_long check_interval 5 (pre @ failing @ rest) a = (True, finally_clause a2)"
    using assms(2) l by (simp add: run_monitoring_loop_def)
  from l s r show "\<exists>a2. monitoring_loop too_long check_interval 5 (pre @ failing @ rest) 0 0 a =
             (Break, 5, n + 5, a2)
           \<and> statuses (trace a2) = statuses (trace a1) @ [TooManyErrors]
           \<and> run_monitoring_loop too_long check_interval 5 (pre @ failing @ rest) a =
               (True, finally_clause a2)
           \<and> statuses (trace (finally_clause a2)) = statuses (trace a1) @ [TooManyErrors]
           \<and> \<not> monitoring_active (finally_clause a2)"
    by (auto simp: finally_statuses finally_inactive)
next
  show "\<not> fst (try_body check_interval ev (cc + 1) ce b) \<longrightarrow>
            fst (snd (try_body check_interval ev (cc + 1) ce b)) = 0
            \<and> fst (snd (monitoring_loop too_long check_interval max_errors [ev] ce cc b)) = 0"
  proof
    assume ok: "\<not> fst (try_body check_interval ev (cc + 1) ce b)"
    then have z: "fst (snd (try_body check_interval ev (cc + 1) ce b)) = 0"
      by (rule try_body_success_resets)
    obtain r c b' where tb: "try_body check_interval ev (cc + 1) ce b = (r, c, b')"
      by (cases "try_body check_interval ev (cc + 1) ce b") auto
    with ok z have "\<not> r" "c = 0" by auto
    with tb have "fst (snd (monitoring_loop too_long check_interval max_errors [ev] ce cc b)) = 0"
      by (simp add: Let_def monitoring_loop.simps)
    with z show "fst (snd (try_body check_interval ev (cc + 1) ce b)) = 0
            \<and> fst (snd (monitoring_loop too_long check_interval max_errors [ev] ce cc b)) = 0"
      by simp
  qed
qed

section \<open>The hourly status and large check intervals\<close>










section \<open>The error budget under a large check interval\<close>

text \<open>
  Claim C3 at a failing input. The check interval is 4000 and the budget five; six
  iterations follow one another, each with a scan that succeeds and finds no bet. Every
  one of them raises inside the \<open>try\<close> (the division by zero of the hourly status) and
  is handled as an error, as the recovery navigation after each shows. Yet the loop
  does not stop after the fifth: the counter is reset to zero before the exception and
  so stands at one after each iteration, no terminal status message is sent, and after
  the sixth iteration the method is still running.
\<close>

theorem error_budget_not_reached:
  "fst (try_body 4000 (Iter False (Some []) False) 1 0 ready_app)
   \<and> monitoring_loop clock_limit 4000 5
       [Iter False (Some []) False, Iter False (Some []) False, Iter False (Some []) False,
        Iter False (Some []) False, Iter False (Some []) False, Iter False (Some []) False]
       0 0 ready_app =
     (OutOfEvents, 1, 6,
      ready_app\<lparr>trace :=
        [Navigate, Sleep 4000, Navigate, Sleep 4000, Navigate, Sleep 4000,
         Navigate, Sleep 4000, Navigate, Sleep 4000, Navigate, Sleep 4000]\<rparr>)
   \<and> run_monitoring_loop clock_limit 4000 5
       [Iter False (Some []) False, Iter False (Some []) False, Iter False (Some []) False,
        Iter False (Some []) False, Iter False (Some []) False, Iter False (Some []) False]
       ready_app =
     (False,
      ready_app\<lparr>trace :=
        [Navigate, Sleep 4000, Navigate, Sleep 4000, Navigate, Sleep 4000,
         Navigate, Sleep 4000, Navigate, Sleep 4000, Navigate, Sleep 4000]\<rparr>)"
  by (simp add: run_monitoring_loop_def monitoring_loop.simps try_body_def hourly_due_def
      sleep_raises_def clock_limit_def check_for_new_bets_def ready_app_def new_monitor_def
      emit_def Let_def)

end
